theory Spec2Isabelle
  imports Complex_Main
begin

section \<open>Values and errors\<close>

text \<open>
  The repayment calculator works on Python numbers (\<open>Numeric\<close>: int or float) and on
  values that are either a number or a string (\<open>NumStr\<close>). Numbers are modelled in exact
  arithmetic as \<^typ>\<open>real\<close>; rounding of binary floating point is outside the model.
  Every exception the code can raise is a value of \<open>error\<close>, and a function that can
  raise returns \<open>error + 'a\<close> with \<open>Inl\<close> for the exception.
\<close>

datatype error = TypeError | ValueError | IndexError | UnboundLocalError

datatype num_str = Num real | Str string

subsection \<open>Python string primitives used by \<open>borrow/common.py\<close>\<close>

text \<open>
  \<open>str.strip()\<close> removes leading and trailing whitespace. The whitespace characters
  below are the ASCII ones of \<open>str.isspace\<close> (tab, line feed, vertical tab, form feed,
  carriage return, the four separators 0x1C to 0x1F and the space).
\<close>

definition is_space :: "char \<Rightarrow> bool" where
  "is_space c = (of_char c \<in> {9::nat, 10, 11, 12, 13, 28, 29, 30, 31, 32})"

definition strip :: "string \<Rightarrow> string" where
  "strip s = rev (dropWhile is_space (rev (dropWhile is_space s)))"

definition is_digit :: "char \<Rightarrow> bool" where
  "is_digit c = (48 \<le> (of_char c :: nat) \<and> (of_char c :: nat) \<le> 57)"

definition digits_value :: "string \<Rightarrow> nat" where
  "digits_value ds = foldl (\<lambda>acc c. 10 * acc + (of_char c - 48)) 0 ds"

text \<open>
  \<open>float(s)\<close> on a string: surrounding whitespace is ignored, then an optional sign and a
  decimal literal with an optional fractional part are read; anything else raises
  \<open>ValueError\<close>. The parser covers plain decimal literals (\<open>6\<close>, \<open>-6.5\<close>, \<open>.5\<close>, \<open>10.\<close>);
  exponent notation, digit-group underscores and the special values \<open>inf\<close> and \<open>nan\<close>
  have no counterpart in exact arithmetic and are not covered.
\<close>

definition py_float :: "string \<Rightarrow> error + real" where
  "py_float s =
     (let t = strip s;
          sg = (case t of c # r \<Rightarrow> (if c = CHR ''-'' then - 1 else 1) | [] \<Rightarrow> (1::real));
          u = (case t of c # r \<Rightarrow> (if c = CHR ''-'' \<or> c = CHR ''+'' then r else t) | [] \<Rightarrow> t);
          ip = takeWhile is_digit u;
          rest = dropWhile is_digit u
      in case rest of
           [] \<Rightarrow> if ip = [] then Inl ValueError else Inr (sg * real (digits_value ip))
         | c # fp \<Rightarrow>
             if c = CHR ''.'' \<and> list_all is_digit fp \<and> (ip \<noteq> [] \<or> fp \<noteq> [])
             then Inr (sg * (real (digits_value ip) + real (digits_value fp) / 10 ^ length fp))
             else Inl ValueError)"

section \<open>\<open>borrow/common.py\<close>\<close>

text \<open>
  \<open>sanitize_percent(value)\<close>: a string is stripped first; then \<open>value[-1]\<close> is read
  whatever the type of \<open>value\<close> is. Subscripting a number raises \<open>TypeError\<close>, and
  subscripting the empty string raises \<open>IndexError\<close>. A string ending in a percent sign
  becomes \<open>float(value[:-1]) / 100\<close>; any other string is returned as it is.
\<close>

definition sanitize_percent :: "num_str \<Rightarrow> error + num_str" where
  "sanitize_percent v =
     (let v' = (case v of Str s \<Rightarrow> Str (strip s) | Num x \<Rightarrow> Num x)
      in case v' of
           Num x \<Rightarrow> Inl TypeError
         | Str s \<Rightarrow>
             if s = [] then Inl IndexError
             else if last s = CHR ''%'' then
               (case py_float (butlast s) of
                  Inl e \<Rightarrow> Inl e
                | Inr f \<Rightarrow> Inr (Num (f / 100)))
             else Inr (Str s))"

text \<open>
  \<open>sign_magnitude(value)\<close>: for a number the sign multiplier and the absolute value; for
  a string the sign read off the first character, which is removed when it is a sign
  (\<open>value[0]\<close> on the empty string raises \<open>IndexError\<close>).
\<close>

definition sign_magnitude :: "num_str \<Rightarrow> error + (real \<times> num_str)" where
  "sign_magnitude v =
     (case v of
        Num x \<Rightarrow> Inr (if x < 0 then - 1 else 1, Num \<bar>x\<bar>)
      | Str s \<Rightarrow>
          (case s of
             [] \<Rightarrow> Inl IndexError
           | c # r \<Rightarrow>
               if c = CHR ''+'' \<or> c = CHR ''-''
               then Inr (if c = CHR ''-'' then - 1 else 1, Str r)
               else Inr (1, Str s)))"

section \<open>Calendar dates and the recurrences of \<open>dateutil\<close>\<close>

text \<open>
  The start date is parsed from \<open>%d-%m-%Y\<close>, so every \<open>datetime\<close> of a run is at
  midnight and only year, month and day matter. Python compares dates
  lexicographically and accepts the years 1 to 9999.
\<close>

record datetime =
  year :: int
  month :: int
  day :: int

definition MINYEAR :: int where "MINYEAR = 1"
definition MAXYEAR :: int where "MAXYEAR = 9999"

definition is_leap :: "int \<Rightarrow> bool" where
  "is_leap y = (y mod 4 = 0 \<and> (y mod 100 \<noteq> 0 \<or> y mod 400 = 0))"

definition days_in_month :: "int \<Rightarrow> int \<Rightarrow> int" where
  "days_in_month y m =
     (if m = 2 then (if is_leap y then 29 else 28)
      else if m = 4 \<or> m = 6 \<or> m = 9 \<or> m = 11 then 30 else 31)"

definition valid_datetime :: "datetime \<Rightarrow> bool" where
  "valid_datetime d =
     (MINYEAR \<le> year d \<and> year d \<le> MAXYEAR \<and> 1 \<le> month d \<and> month d \<le> 12 \<and>
      1 \<le> day d \<and> day d \<le> days_in_month (year d) (month d))"

definition dt_less :: "datetime \<Rightarrow> datetime \<Rightarrow> bool" where
  "dt_less a b =
     (year a < year b \<or> (year a = year b \<and>
        (month a < month b \<or> (month a = month b \<and> day a < day b))))"

text \<open>
  \<open>dt + relativedelta(years=ys, months=ms)\<close> for a normalised delta (\<open>|ms| \<le> 11\<close>): the
  year and month are shifted, the day is clamped to the length of the target month, and
  a year outside 1 to 9999 raises \<open>ValueError\<close>.
\<close>

definition relativedelta_add :: "datetime \<Rightarrow> int \<Rightarrow> int \<Rightarrow> error + datetime" where
  "relativedelta_add dt ys ms =
     (let y0 = year dt + ys;
          m0 = month dt + ms;
          y = (if ms \<noteq> 0 \<and> m0 > 12 then y0 + 1 else if ms \<noteq> 0 \<and> m0 < 1 then y0 - 1 else y0);
          m = (if ms \<noteq> 0 \<and> m0 > 12 then m0 - 12 else if ms \<noteq> 0 \<and> m0 < 1 then m0 + 12 else m0)
      in if y < MINYEAR \<or> MAXYEAR < y then Inl ValueError
         else Inr \<lparr>year = y, month = m, day = min (days_in_month y m) (day dt)\<rparr>)"

text \<open>
  \<open>rrule(freq=MONTHLY, dtstart=s, until=e)\<close>: month after month from the month of
  \<open>s\<close>, the day of \<open>s\<close> in that month when the month has such a day (a month that is too
  short is skipped); the recurrence ends at the first date after \<open>e\<close>, or past year 9999.
  The arguments are the year and month the iteration has reached and the fixed day.
\<close>

function rrule_monthly :: "int \<Rightarrow> int \<Rightarrow> int \<Rightarrow> datetime \<Rightarrow> datetime list" where
  "rrule_monthly y m d until =
     (if MAXYEAR < y then []
      else
        let res = \<lparr>year = y, month = m, day = d\<rparr>;
            y' = (if m \<ge> 12 then y + 1 else y);
            m' = (if m \<ge> 12 then 1 else m + 1)
        in if d \<le> days_in_month y m then
             (if dt_less until res then [] else res # rrule_monthly y' m' d until)
           else rrule_monthly y' m' d until)"
  by pat_completeness auto
termination
  by (relation "measure (\<lambda>(y, m, d, u). nat ((MAXYEAR + 1 - y) * 12) + nat (12 - m))")
     (auto simp: MAXYEAR_def)

text \<open>
  \<open>rrule(freq=YEARLY, dtstart=s, count=c)\<close>: year after year the month and day of \<open>s\<close>
  (a year without that day is skipped) until \<open>c\<close> dates have been produced or the year
  passes 9999; a count of zero or less produces nothing, as in the current releases of
  \<open>dateutil\<close>.
\<close>

function rrule_yearly :: "int \<Rightarrow> int \<Rightarrow> int \<Rightarrow> int \<Rightarrow> datetime list" where
  "rrule_yearly y m d count =
     (if count \<le> 0 \<or> MAXYEAR < y then []
      else if d \<le> days_in_month y m
           then \<lparr>year = y, month = m, day = d\<rparr> # rrule_yearly (y + 1) m d (count - 1)
           else rrule_yearly (y + 1) m d count)"
  by pat_completeness auto
termination
  by (relation "measure (\<lambda>(y, m, d, c). nat (MAXYEAR + 1 - y))") (auto simp: MAXYEAR_def)

section \<open>\<open>borrow/mortgage.py\<close>\<close>

text \<open>
  The attributes of a \<open>mortgage\<close> object. \<open>amount\<close> and \<open>start\<close> hold the placeholders
  \<open>"Unknown"\<close> and \<open>"N/A"\<close> until \<open>repay\<close> binds them; the placeholder is \<open>None\<close> here.
\<close>

record mortgage =
  m_amount :: "real option"
  m_rate :: real
  m_repayment :: real
  m_overpay :: real
  m_duration :: int
  m_downpayment :: num_str
  m_start :: "datetime option"

text \<open>The constructor stores its arguments; it checks nothing and raises nothing.\<close>

definition mortgage_init :: "real \<Rightarrow> int \<Rightarrow> real \<Rightarrow> real \<Rightarrow> num_str \<Rightarrow> mortgage" where
  "mortgage_init rate duration repayment overpay downpayment =
     \<lparr>m_amount = None, m_rate = rate, m_repayment = repayment, m_overpay = overpay,
      m_duration = duration, m_downpayment = downpayment, m_start = None\<rparr>"

text \<open>
  \<open>repayment_duration\<close>: the payment dates, monthly from one month after the start to
  the start plus the term. Both ends are computed before the first date is produced, so
  an exception leaves no date behind. An unbound start (the string \<open>"N/A"\<close>) cannot be
  added to a \<open>relativedelta\<close>.
\<close>

definition repayment_duration :: "mortgage \<Rightarrow> error + datetime list" where
  "repayment_duration m =
     (case m_start m of
        None \<Rightarrow> Inl TypeError
      | Some s \<Rightarrow>
          (case relativedelta_add s (m_duration m) 0 of
             Inl e \<Rightarrow> Inl e
           | Inr end \<Rightarrow>
               (case relativedelta_add s 0 1 of
                  Inl e \<Rightarrow> Inl e
                | Inr start \<Rightarrow>
                    Inr (rrule_monthly (year start) (month start) (day start) end))))"

definition calculate_interest :: "mortgage \<Rightarrow> real \<Rightarrow> real" where
  "calculate_interest m outstanding = outstanding * (m_rate m / 12)"

text \<open>
  \<open>calculate_downpayment\<close>: sign and magnitude of the stored downpayment; a string
  magnitude ending in a percent sign is resolved against the balance passed in. A string
  magnitude that is left over cannot be multiplied by the (float) sign.
\<close>

definition calculate_downpayment :: "mortgage \<Rightarrow> real \<Rightarrow> error + real" where
  "calculate_downpayment m outstanding =
     (case sign_magnitude (m_downpayment m) of
        Inl e \<Rightarrow> Inl e
      | Inr (sign, magnitude) \<Rightarrow>
          (case magnitude of
             Num x \<Rightarrow> Inr (x * sign)
           | Str s \<Rightarrow>
               if s = [] then Inl IndexError
               else if last s = CHR ''%'' then
                 (case sanitize_percent (Str s) of
                    Inl e \<Rightarrow> Inl e
                  | Inr (Num p) \<Rightarrow> Inr (p * outstanding * sign)
                  | Inr (Str t) \<Rightarrow> Inl TypeError)
               else Inl TypeError))"

text \<open>
  \<open>calculate_overpay\<close>: on a date of the yearly recurrence that starts on the first
  anniversary of the bound start and has \<open>duration - 1\<close> dates, the lump is the balance
  times \<open>overpay\<close>, replaced by the balance itself unless the balance is larger.
\<close>

definition calculate_overpay :: "mortgage \<Rightarrow> datetime \<Rightarrow> real \<Rightarrow> error + real" where
  "calculate_overpay m date outstanding =
     (case m_start m of
        None \<Rightarrow> Inl TypeError
      | Some s \<Rightarrow>
          (case relativedelta_add s 1 0 of
             Inl e \<Rightarrow> Inl e
           | Inr first \<Rightarrow>
               if date \<in> set (rrule_yearly (year first) (month first) (day first)
                                (m_duration m - 1))
               then (let lump = outstanding * m_overpay m
                     in Inr (if outstanding > lump then lump else outstanding))
               else Inr 0))"

definition calculate_repayment :: "mortgage \<Rightarrow> datetime \<Rightarrow> real \<Rightarrow> error + real" where
  "calculate_repayment m date outstanding =
     (let repayment = (if outstanding > m_repayment m then m_repayment m else outstanding)
      in if m_overpay m \<noteq> 0 then
           (case calculate_overpay m date (outstanding - repayment) of
              Inl e \<Rightarrow> Inl e
            | Inr lump \<Rightarrow> Inr (repayment + lump))
         else Inr repayment)"

text \<open>
  The local variables of \<open>repay\<close> that the loop updates. \<open>date\<close> is the loop variable:
  it is unbound (\<open>None\<close>) until the first iteration binds it.
\<close>

record locals =
  interests :: real
  repayments :: real
  outstanding :: real
  date :: "datetime option"

text \<open>
  The \<open>for\<close> loop of \<open>repay\<close> over the payment dates: interest is added first; while
  something is owed the repayment is made, otherwise the loop is left.
\<close>

fun repay_loop :: "mortgage \<Rightarrow> datetime list \<Rightarrow> locals \<Rightarrow> error + locals" where
  "repay_loop m [] st = Inr st"
| "repay_loop m (d # ds) st =
     (let interest = calculate_interest m (outstanding st);
          st1 = st\<lparr>interests := interests st + interest,
                   outstanding := outstanding st + interest,
                   date := Some d\<rparr>
      in if outstanding st1 > 0 then
           (case calculate_repayment m d (outstanding st1) of
              Inl e \<Rightarrow> Inl e
            | Inr repayment \<Rightarrow>
                repay_loop m ds (st1\<lparr>repayments := repayments st1 + repayment,
                                      outstanding := outstanding st1 - repayment\<rparr>))
         else Inr st1)"

text \<open>
  \<open>repay\<close> up to its \<open>return\<close> statement: the object is bound to the start date and the
  balance, the downpayment is resolved and subtracted, and the loop runs. The result is
  the bound object, the resolved downpayment and the locals as the loop leaves them.
  Printing does not change any of these values and is not modelled.
\<close>

definition repay_locals :: "mortgage \<Rightarrow> real \<Rightarrow> datetime \<Rightarrow> error + (mortgage \<times> real \<times> locals)" where
  "repay_locals m outstanding0 start =
     (let self = m\<lparr>m_start := Some start, m_amount := Some outstanding0\<rparr>
      in case calculate_downpayment self outstanding0 of
           Inl e \<Rightarrow> Inl e
         | Inr downpayment \<Rightarrow>
             (case repayment_duration self of
                Inl e \<Rightarrow> Inl e
              | Inr dates \<Rightarrow>
                  (case repay_loop self dates
                          \<lparr>interests = 0, repayments = 0,
                           outstanding = outstanding0 - downpayment, date = None\<rparr> of
                     Inl e \<Rightarrow> Inl e
                   | Inr st \<Rightarrow> Inr (self, downpayment, st))))"

text \<open>
  The \<open>return\<close> statement of \<open>repay\<close> reads the loop variable \<open>date\<close>; when no iteration
  has bound it, Python raises \<open>UnboundLocalError\<close>.
\<close>

definition repay :: "mortgage \<Rightarrow> real \<Rightarrow> datetime \<Rightarrow> error + (mortgage \<times> real \<times> real \<times> datetime)" where
  "repay m outstanding0 start =
     (case repay_locals m outstanding0 start of
        Inl e \<Rightarrow> Inl e
      | Inr (self, downpayment, st) \<Rightarrow>
          (case date st of
             None \<Rightarrow> Inl UnboundLocalError
           | Some d \<Rightarrow> Inr (self, interests st, repayments st + downpayment, d)))"

section \<open>\<open>borrow/loan.py\<close>\<close>

text \<open>
  The attributes of a \<open>loan\<close> object. \<open>cost\<close> is the placeholder \<open>"Unknown"\<close> (\<open>None\<close>)
  until \<open>payoff\<close> sets it; \<open>end\<close> does not exist before the first mortgage has been
  repaid. \<open>duration\<close>, the difference of \<open>end\<close> and \<open>start\<close> in years and months, is used
  for display only and is left out.
\<close>

record loan =
  l_amount :: real
  l_outstanding :: real
  l_cost :: "real option"
  l_start :: datetime
  l_mortgages :: "mortgage list"
  l_end :: "datetime option"

text \<open>
  One pass of the \<open>while\<close> loop of \<open>payoff\<close>, for a list of mortgages that is not
  empty: the first mortgage is taken off the list and repaid from the current start
  date, and the balance, the cost and the end date are updated. Adding to a cost that
  is still the placeholder string raises \<open>TypeError\<close>.
\<close>

definition payoff_step :: "loan \<Rightarrow> mortgage \<Rightarrow> mortgage list \<Rightarrow> datetime \<Rightarrow> error + (loan \<times> datetime)" where
  "payoff_step l m ms start =
     (case repay m (l_outstanding l) start of
        Inl e \<Rightarrow> Inl e
      | Inr (self, increase, decrease, current) \<Rightarrow>
          (case l_cost l of
             None \<Rightarrow> Inl TypeError
           | Some c \<Rightarrow>
               Inr (l\<lparr>l_mortgages := ms,
                      l_outstanding := l_outstanding l - (decrease - increase),
                      l_cost := Some (c + increase),
                      l_end := Some current\<rparr>, current)))"

text \<open>
  The \<open>while\<close> loop of \<open>payoff\<close>: mortgages are repaid in order, each from the date the
  one before returned, until the list is empty or nothing is owed any more.
\<close>

function payoff_loop :: "loan \<Rightarrow> datetime \<Rightarrow> error + loan" where
  "payoff_loop l start =
     (case l_mortgages l of
        [] \<Rightarrow> Inr l
      | m # ms \<Rightarrow>
          (case payoff_step l m ms start of
             Inl e \<Rightarrow> Inl e
           | Inr (l', current) \<Rightarrow>
               if \<not> (l_outstanding l' > 0) then Inr l'
               else payoff_loop l' current))"
  by pat_completeness auto
termination
proof (relation "measure (\<lambda>(l, s). length (l_mortgages l))")
  show "wf (measure (\<lambda>(l, s). length (l_mortgages l)))"
    by simp
next
  fix l :: loan and start m ms x l' current
  assume "l_mortgages l = m # ms" and "payoff_step l m ms start = Inr x"
    and "(l', current) = x"
  then have "l_mortgages l' = ms"
    by (auto simp: payoff_step_def split: sum.splits option.splits prod.splits)
  with \<open>l_mortgages l = m # ms\<close>
  show "((l', current), (l, start)) \<in> measure (\<lambda>(l, s). length (l_mortgages l))"
    by simp
qed

text \<open>
  The loan as it stands after each pass of the loop, in order: what an observer of the
  \<open>loan\<close> object sees between two mortgages. The last state is the one the loop ends in.
\<close>

function payoff_states :: "loan \<Rightarrow> datetime \<Rightarrow> loan list" where
  "payoff_states l start =
     (case l_mortgages l of
        [] \<Rightarrow> []
      | m # ms \<Rightarrow>
          (case payoff_step l m ms start of
             Inl e \<Rightarrow> []
           | Inr (l', current) \<Rightarrow>
               if \<not> (l_outstanding l' > 0) then [l']
               else l' # payoff_states l' current))"
  by pat_completeness auto
termination
proof (relation "measure (\<lambda>(l, s). length (l_mortgages l))")
  show "wf (measure (\<lambda>(l, s). length (l_mortgages l)))"
    by simp
next
  fix l :: loan and start m ms x l' current
  assume "l_mortgages l = m # ms" and "payoff_step l m ms start = Inr x"
    and "(l', current) = x"
  then have "l_mortgages l' = ms"
    by (auto simp: payoff_step_def split: sum.splits option.splits prod.splits)
  with \<open>l_mortgages l = m # ms\<close>
  show "((l', current), (l, start)) \<in> measure (\<lambda>(l, s). length (l_mortgages l))"
    by simp
qed

text \<open>
  \<open>payoff\<close>: the cost is reset, the date of the first payment is computed for the
  header that is printed, and the loop runs from the start date of the loan.
\<close>

definition payoff :: "loan \<Rightarrow> error + loan" where
  "payoff l =
     (let l0 = l\<lparr>l_cost := Some 0\<rparr>
      in case relativedelta_add (l_start l) 0 1 of
           Inl e \<Rightarrow> Inl e
         | Inr paydate \<Rightarrow> payoff_loop l0 (l_start l))"

text \<open>
  The constructor of \<open>loan\<close> with the list of mortgages already loaded: the balance
  starts at the amount borrowed.
\<close>

definition loan_init :: "real \<Rightarrow> datetime \<Rightarrow> mortgage list \<Rightarrow> loan" where
  "loan_init amount start mortgages =
     \<lparr>l_amount = amount, l_outstanding = amount, l_cost = None, l_start = start,
      l_mortgages = mortgages, l_end = None\<rparr>"

declare rrule_monthly.simps [simp del]
declare rrule_yearly.simps [simp del]
declare payoff_loop.simps [simp del]
declare payoff_states.simps [simp del]

section \<open>Interest\<close>




section \<open>Properties of one payment and of the payment loop\<close>

lemma calculate_overpay_bounds:
  assumes "calculate_overpay m d x = Inr lump" and "0 \<le> x"
  shows "lump \<le> x" and "0 \<le> m_overpay m \<Longrightarrow> 0 \<le> lump"
  using assms
  by (auto simp: calculate_overpay_def Let_def split: option.splits sum.splits if_splits)

lemma calculate_repayment_lump:
  assumes "calculate_repayment m d b = Inr r"
  obtains lump where
    "r = (if b > m_repayment m then m_repayment m else b) + lump"
    "m_overpay m = 0 \<and> lump = 0 \<or>
     m_overpay m \<noteq> 0 \<and>
     calculate_overpay m d (b - (if b > m_repayment m then m_repayment m else b)) = Inr lump"
  using assms
  by (auto simp: calculate_repayment_def Let_def split: sum.splits if_splits)

lemma calculate_repayment_bounds:
  assumes "calculate_repayment m d b = Inr r" and "0 < b"
  shows "r \<le> b"
    and "0 \<le> m_repayment m \<Longrightarrow> 0 \<le> m_overpay m \<Longrightarrow> 0 \<le> r"
    and "0 \<le> m_overpay m \<Longrightarrow> m_repayment m < b \<Longrightarrow> m_repayment m \<le> r"
    and "b \<le> m_repayment m \<Longrightarrow> r = b"
proof -
  let ?n = "if b > m_repayment m then m_repayment m else b"
  have n: "0 \<le> b - ?n" using assms(2) by simp
  from assms(1) obtain lump where
    r: "r = ?n + lump" and
    l: "m_overpay m = 0 \<and> lump = 0 \<or> m_overpay m \<noteq> 0 \<and> calculate_overpay m d (b - ?n) = Inr lump"
    by (rule calculate_repayment_lump)
  from l n have le: "lump \<le> b - ?n"
    using calculate_overpay_bounds(1) by blast
  from l n have ge: "0 \<le> m_overpay m \<Longrightarrow> 0 \<le> lump"
    using calculate_overpay_bounds(2) by blast
  show "r \<le> b" using r le by simp
  show "0 \<le> m_repayment m \<Longrightarrow> 0 \<le> m_overpay m \<Longrightarrow> 0 \<le> r"
    using r ge assms(2) by (simp split: if_splits)
  show "0 \<le> m_overpay m \<Longrightarrow> m_repayment m < b \<Longrightarrow> m_repayment m \<le> r"
    using r ge by simp
  show "b \<le> m_repayment m \<Longrightarrow> r = b"
    using r l by (auto simp: calculate_overpay_def Let_def split: option.splits sum.splits if_splits)
qed

lemma repay_loop_conserved:
  "repay_loop m ds st = Inr st' \<Longrightarrow>
   outstanding st' - interests st' + repayments st' = outstanding st - interests st + repayments st"
proof (induction ds arbitrary: st)
  case Nil
  then show ?case by simp
next
  case (Cons d ds)
  show ?case
  proof (cases "outstanding st + calculate_interest m (outstanding st) > 0")
    case False
    with Cons.prems show ?thesis by (auto simp: Let_def)
  next
    case True
    with Cons.prems obtain r where
      r: "calculate_repayment m d (outstanding st + calculate_interest m (outstanding st)) = Inr r"
      and rest: "repay_loop m ds
         (st\<lparr>interests := interests st + calculate_interest m (outstanding st),
             outstanding := outstanding st + calculate_interest m (outstanding st),
             date := Some d,
             repayments := repayments st + r,
             outstanding := outstanding st + calculate_interest m (outstanding st) - r\<rparr>) = Inr st'"
      by (auto simp: Let_def split: sum.splits)
    from Cons.IH [OF rest] show ?thesis by simp
  qed
qed


lemma repay_loop_ConsE:
  assumes "repay_loop m (d # ds) st = Inr st'"
  obtains (leave)
      "\<not> 0 < outstanding st + calculate_interest m (outstanding st)"
      "st' = \<lparr>interests = interests st + calculate_interest m (outstanding st),
             repayments = repayments st,
             outstanding = outstanding st + calculate_interest m (outstanding st),
             date = Some d\<rparr>"
  | (pay) r where
      "0 < outstanding st + calculate_interest m (outstanding st)"
      "calculate_repayment m d (outstanding st + calculate_interest m (outstanding st)) = Inr r"
      "repay_loop m ds
         \<lparr>interests = interests st + calculate_interest m (outstanding st),
          repayments = repayments st + r,
          outstanding = outstanding st + calculate_interest m (outstanding st) - r,
          date = Some d\<rparr> = Inr st'"
  using assms
  by (cases st) (auto simp: Let_def split: sum.splits if_splits)

lemma interest_sign:
  assumes "0 \<le> m_rate m"
  shows "b \<le> 0 \<Longrightarrow> calculate_interest m b \<le> 0"
    and "0 \<le> b \<Longrightarrow> 0 \<le> calculate_interest m b"
    and "b \<le> c \<Longrightarrow> calculate_interest m b \<le> calculate_interest m c"
  using assms
  by (simp_all add: calculate_interest_def mult_nonpos_nonneg mult_right_mono)

lemma repay_loop_le_bound:
  assumes "0 \<le> m_rate m" "0 \<le> m_overpay m" "calculate_interest m P \<le> m_repayment m"
  shows "repay_loop m ds st = Inr st' \<Longrightarrow> outstanding st \<le> P \<Longrightarrow> outstanding st' \<le> P"
proof (induction ds arbitrary: st)
  case Nil
  then show ?case by simp
next
  case (Cons d ds)
  let ?i = "calculate_interest m (outstanding st)"
  from Cons.prems(1) show ?case
  proof (cases rule: repay_loop_ConsE)
    case leave
    have "outstanding st \<le> 0"
    proof (rule ccontr)
      assume "\<not> outstanding st \<le> 0"
      then have "0 \<le> outstanding st" "0 < outstanding st" by simp_all
      with interest_sign(2) [OF assms(1), of "outstanding st"] leave(1) show False by simp
    qed
    with interest_sign(1) [OF assms(1), of "outstanding st"] have "?i \<le> 0" by simp
    with leave(2) Cons.prems(2) show ?thesis by simp
  next
    case (pay r)
    have pos: "0 < outstanding st"
    proof (rule ccontr)
      assume "\<not> 0 < outstanding st"
      then have "outstanding st \<le> 0" by simp
      with interest_sign(1) [OF assms(1), of "outstanding st"] pay(1) show False by simp
    qed
    have i: "?i \<le> m_repayment m"
      using interest_sign(3) [OF assms(1) Cons.prems(2)] assms(3) by simp
    have "outstanding st + ?i - r \<le> P"
    proof (cases "m_repayment m < outstanding st + ?i")
      case True
      from calculate_repayment_bounds(3) [OF pay(2) pay(1) assms(2) True] i Cons.prems(2)
      show ?thesis by simp
    next
      case False
      then have "r = outstanding st + ?i"
        using calculate_repayment_bounds(4) [OF pay(2) pay(1)] by simp
      with pos Cons.prems(2) show ?thesis by simp
    qed
    with Cons.IH [OF pay(3)] show ?thesis by simp
  qed
qed


lemma repay_loop_date:
  assumes "repay_loop m ds st = Inr st'"
  shows "ds = [] \<Longrightarrow> date st' = date st"
    and "ds \<noteq> [] \<Longrightarrow> \<exists>d \<in> set ds. date st' = Some d"
    and "ds \<noteq> [] \<Longrightarrow> 0 < outstanding st' \<Longrightarrow> date st' = Some (last ds)"
proof -
  show "ds = [] \<Longrightarrow> date st' = date st" using assms by simp
  show "ds \<noteq> [] \<Longrightarrow> \<exists>d \<in> set ds. date st' = Some d"
    using assms
  proof (induction ds arbitrary: st)
    case Nil
    then show ?case by simp
  next
    case (Cons d ds)
    from Cons.prems(2) show ?case
    proof (cases rule: repay_loop_ConsE)
      case leave
      then show ?thesis by simp
    next
      case (pay r)
      show ?thesis
      proof (cases "ds = []")
        case True
        with pay(3) show ?thesis by auto
      next
        case False
        from Cons.IH [OF False pay(3)] show ?thesis by auto
      qed
    qed
  qed
  show "ds \<noteq> [] \<Longrightarrow> 0 < outstanding st' \<Longrightarrow> date st' = Some (last ds)"
    using assms
  proof (induction ds arbitrary: st)
    case Nil
    then show ?case by simp
  next
    case (Cons d ds)
    from Cons.prems(3) show ?case
    proof (cases rule: repay_loop_ConsE)
      case leave
      with Cons.prems(2) show ?thesis by simp
    next
      case (pay r)
      show ?thesis
      proof (cases "ds = []")
        case True
        with pay(3) show ?thesis by auto
      next
        case False
        from Cons.IH [OF False Cons.prems(2) pay(3)] False show ?thesis by simp
      qed
    qed
  qed
qed

lemma calculate_repayment_total:
  assumes "m_overpay m \<noteq> 0 \<Longrightarrow> \<exists>s first. m_start m = Some s \<and> relativedelta_add s 1 0 = Inr first"
  shows "\<exists>r. calculate_repayment m d b = Inr r"
proof (cases "m_overpay m = 0")
  case True
  then show ?thesis by (simp add: calculate_repayment_def Let_def)
next
  case False
  with assms obtain s first where "m_start m = Some s" "relativedelta_add s 1 0 = Inr first"
    by blast
  then show ?thesis
    by (simp add: calculate_repayment_def calculate_overpay_def Let_def)
qed

lemma repay_loop_total:
  assumes "m_overpay m \<noteq> 0 \<Longrightarrow> \<exists>s first. m_start m = Some s \<and> relativedelta_add s 1 0 = Inr first"
  shows "\<exists>st'. repay_loop m ds st = Inr st'"
proof (induction ds arbitrary: st)
  case Nil
  then show ?case by simp
next
  case (Cons d ds)
  from calculate_repayment_total [OF assms] obtain r where
    "calculate_repayment m d (outstanding st + calculate_interest m (outstanding st)) = Inr r"
    by blast
  with Cons.IH show ?case by (simp add: Let_def)
qed

section \<open>Properties of the calendar and of the payment dates\<close>

lemma relativedelta_add_years:
  "relativedelta_add s k 0 =
     (if year s + k < MINYEAR \<or> MAXYEAR < year s + k then Inl ValueError
      else Inr \<lparr>year = year s + k, month = month s,
                day = min (days_in_month (year s + k) (month s)) (day s)\<rparr>)"
  by (simp add: relativedelta_add_def Let_def)

lemma relativedelta_add_yearsE:
  assumes "relativedelta_add s k 0 = Inr e"
  obtains "MINYEAR \<le> year s + k" "year s + k \<le> MAXYEAR"
    "year e = year s + k" "month e = month s"
    "day e = min (days_in_month (year s + k) (month s)) (day s)"
proof -
  from assms have ok: "\<not> (year s + k < MINYEAR \<or> MAXYEAR < year s + k)"
    by (simp add: relativedelta_add_years split: if_splits)
  with assms have "e = \<lparr>year = year s + k, month = month s,
                day = min (days_in_month (year s + k) (month s)) (day s)\<rparr>"
    by (simp add: relativedelta_add_years)
  with ok that show thesis by simp
qed

lemma relativedelta_add_monthE:
  assumes "relativedelta_add s 0 1 = Inr s1" and "1 \<le> month s" and "month s \<le> 12"
  obtains (december) "month s = 12" "year s1 = year s + 1" "month s1 = 1"
      "day s1 = min (days_in_month (year s + 1) 1) (day s)" "year s + 1 \<le> MAXYEAR"
  | (other) "month s < 12" "year s1 = year s" "month s1 = month s + 1"
      "day s1 = min (days_in_month (year s) (month s + 1)) (day s)" "year s \<le> MAXYEAR"
proof (cases "month s = 12")
  case True
  with assms(1) have ok: "\<not> (year s + 1 < MINYEAR \<or> MAXYEAR < year s + 1)"
    by (simp add: relativedelta_add_def Let_def split: if_splits)
  with assms(1) True have "s1 = \<lparr>year = year s + 1, month = 1,
      day = min (days_in_month (year s + 1) 1) (day s)\<rparr>"
    by (simp add: relativedelta_add_def Let_def)
  with ok True december show thesis by simp
next
  case False
  with assms(3) have lt: "month s < 12" by simp
  with assms(1,2) have ok: "\<not> (year s < MINYEAR \<or> MAXYEAR < year s)"
    by (simp add: relativedelta_add_def Let_def split: if_splits)
  with assms(1,2) lt have "s1 = \<lparr>year = year s, month = month s + 1,
      day = min (days_in_month (year s) (month s + 1)) (day s)\<rparr>"
    by (simp add: relativedelta_add_def Let_def)
  with ok lt other show thesis by simp
qed


lemma repayment_durationE:
  assumes "repayment_duration m = Inr ds" and "m_start m = Some s"
  obtains e s1 where
    "relativedelta_add s (m_duration m) 0 = Inr e"
    "relativedelta_add s 0 1 = Inr s1"
    "ds = rrule_monthly (year s1) (month s1) (day s1) e"
  using assms
  by (auto simp: repayment_duration_def split: sum.splits)

lemma min_days_le: "min (days_in_month y m) d \<le> days_in_month y m"
  by simp

lemma schedule_empty:
  assumes "valid_datetime s" and "m_start m = Some s" and "m_duration m \<le> 0"
    and "repayment_duration m = Inr ds"
  shows "ds = []"
proof -
  from assms(1) have mo: "1 \<le> month s" "month s \<le> 12"
    by (simp_all add: valid_datetime_def)
  from assms(4,2) obtain e s1 where
    e: "relativedelta_add s (m_duration m) 0 = Inr e" and
    s1: "relativedelta_add s 0 1 = Inr s1" and
    ds: "ds = rrule_monthly (year s1) (month s1) (day s1) e"
    by (rule repayment_durationE)
  from e have e_eq: "year e = year s + m_duration m" "month e = month s"
    by (rule relativedelta_add_yearsE, simp)+
  from s1 mo have less:
    "dt_less e \<lparr>year = year s1, month = month s1, day = day s1\<rparr> \<and>
     day s1 \<le> days_in_month (year s1) (month s1)"
  proof (cases rule: relativedelta_add_monthE)
    case december
    with e_eq assms(3) show ?thesis by (auto simp: dt_less_def)
  next
    case other
    with e_eq assms(3) show ?thesis by (auto simp: dt_less_def)
  qed
  show ?thesis
    unfolding ds
    by (subst rrule_monthly.simps) (simp add: Let_def less)
qed








section \<open>Properties of \<open>repay\<close>\<close>




lemma calculate_downpayment_bound [simp]:
  "calculate_downpayment (m\<lparr>m_start := a, m_amount := b\<rparr>) out = calculate_downpayment m out"
  by (simp add: calculate_downpayment_def)

lemma repay_localsE:
  assumes "repay_locals m out start = Inr (self, dp, st)"
  obtains ds where
    "self = m\<lparr>m_start := Some start, m_amount := Some out\<rparr>"
    "calculate_downpayment m out = Inr dp"
    "repayment_duration self = Inr ds"
    "repay_loop self ds \<lparr>interests = 0, repayments = 0, outstanding = out - dp, date = None\<rparr> = Inr st"
  using assms
  by (auto simp: repay_locals_def Let_def split: sum.splits)

lemma repayE:
  assumes "repay m out start = Inr (self, i, r, d)"
  obtains dp st where
    "repay_locals m out start = Inr (self, dp, st)"
    "date st = Some d" "i = interests st" "r = repayments st + dp"
  using assms
  by (auto simp: repay_def split: sum.splits option.splits)

lemma repay_fails_without_term:
  assumes "valid_datetime start" and "m_duration m \<le> 0"
  shows "\<exists>e. repay m out start = Inl e"
proof (cases "repay m out start")
  case (Inl e)
  then show ?thesis by blast
next
  case (Inr res)
  obtain self i r d where res: "res = (self, i, r, d)" by (cases res) auto
  from Inr res obtain dp st where
    loc: "repay_locals m out start = Inr (self, dp, st)" and d: "date st = Some d"
    by (auto elim: repayE)
  from loc obtain ds where
    self: "self = m\<lparr>m_start := Some start, m_amount := Some out\<rparr>" and
    sched: "repayment_duration self = Inr ds" and
    loop: "repay_loop self ds \<lparr>interests = 0, repayments = 0, outstanding = out - dp, date = None\<rparr> = Inr st"
    by (rule repay_localsE)
  have "ds = []"
    using schedule_empty [OF assms(1) _ _ sched] assms(2) self by simp
  with loop d show ?thesis by auto
qed

section \<open>The end date returned by \<open>repay\<close>\<close>




section \<open>The balance kept by the loan and the balance kept by the mortgage\<close>

text \<open>
  The pass of the \<open>payoff\<close> loop in terms of the locals \<open>repay\<close> ended with: the new
  balance of the loan is the balance \<open>repay\<close> kept, because the loop of \<open>repay\<close> keeps
  balance minus interest plus repayments constant.
\<close>

lemma payoff_step_result:
  assumes "repay_locals m (l_outstanding l) start = Inr (self, downpayment, st)"
    and "date st = Some current"
    and "l_cost l = Some c"
  shows "payoff_step l m ms start =
           Inr (l\<lparr>l_mortgages := ms, l_outstanding := outstanding st,
                  l_cost := Some (c + interests st), l_end := Some current\<rparr>, current) \<and>
         outstanding st = l_outstanding l - downpayment + interests st - repayments st"
proof -
  from assms(1) obtain dates where
    loop: "repay_loop self dates
             \<lparr>interests = 0, repayments = 0,
              outstanding = l_outstanding l - downpayment, date = None\<rparr> = Inr st"
    by (auto simp: repay_locals_def Let_def split: sum.splits)
  from repay_loop_conserved [OF loop]
  have bal: "outstanding st = l_outstanding l - downpayment + interests st - repayments st"
    by simp
  have "repay m (l_outstanding l) start =
          Inr (self, interests st, repayments st + downpayment, current)"
    using assms(1,2) by (simp add: repay_def)
  with assms(3) bal show ?thesis
    by (simp add: payoff_step_def)
qed



section \<open>One period of the payment loop\<close>

text \<open>
  C3, amended. In a period that starts from a balance that is not negative, with a rate,
  a monthly repayment and an overpayment that are not negative, the interest step never
  lowers the balance and the repayment step never raises it; the balance after the
  period is at most the balance before the interest was added whenever the interest of
  the period does not exceed the monthly repayment.
\<close>

theorem period_balance_bounds:
  assumes "0 \<le> outstanding st" and "0 \<le> m_rate m"
    and "0 \<le> m_repayment m" and "0 \<le> m_overpay m"
    and "repay_loop m [d] st = Inr st'"
  shows "outstanding st \<le> outstanding st + calculate_interest m (outstanding st) \<and>
         outstanding st' \<le> outstanding st + calculate_interest m (outstanding st) \<and>
         (calculate_interest m (outstanding st) \<le> m_repayment m \<longrightarrow>
            outstanding st' \<le> outstanding st)"
proof -
  let ?i = "calculate_interest m (outstanding st)"
  have i0: "0 \<le> ?i" using interest_sign(2) [OF assms(2,1)] .
  from assms(5) show ?thesis
  proof (cases rule: repay_loop_ConsE)
    case leave
    with i0 assms(1) show ?thesis by simp
  next
    case (pay r)
    from pay(3) have st': "outstanding st' = outstanding st + ?i - r" by auto
    from calculate_repayment_bounds(2) [OF pay(2) pay(1) assms(3,4)] have r0: "0 \<le> r" .
    have "?i \<le> m_repayment m \<Longrightarrow> outstanding st + ?i - r \<le> outstanding st"
    proof (cases "m_repayment m < outstanding st + ?i")
      case True
      assume "?i \<le> m_repayment m"
      with calculate_repayment_bounds(3) [OF pay(2) pay(1) assms(4) True] show ?thesis by simp
    next
      case False
      then have "r = outstanding st + ?i"
        using calculate_repayment_bounds(4) [OF pay(2) pay(1)] by simp
      with assms(1) show ?thesis by simp
    qed
    with st' r0 i0 show ?thesis by simp
  qed
qed

theorem period_balance_bounds_witness:
  "0 \<le> outstanding \<lparr>interests = 0, repayments = 0, outstanding = 100000, date = None\<rparr> \<and>
   0 \<le> m_rate (mortgage_init (6 / 100) 25 700 0 (Num 0)) \<and>
   0 \<le> m_repayment (mortgage_init (6 / 100) 25 700 0 (Num 0)) \<and>
   0 \<le> m_overpay (mortgage_init (6 / 100) 25 700 0 (Num 0)) \<and>
   repay_loop (mortgage_init (6 / 100) 25 700 0 (Num 0)) [\<lparr>year = 2020, month = 2, day = 15\<rparr>]
     \<lparr>interests = 0, repayments = 0, outstanding = 100000, date = None\<rparr>
     = Inr \<lparr>interests = 500, repayments = 700, outstanding = 99800,
            date = Some \<lparr>year = 2020, month = 2, day = 15\<rparr>\<rparr> \<and>
   calculate_interest (mortgage_init (6 / 100) 25 700 0 (Num 0)) 100000
     \<le> m_repayment (mortgage_init (6 / 100) 25 700 0 (Num 0)) \<and>
   outstanding \<lparr>interests = 500, repayments = 700, outstanding = 99800,
                date = Some \<lparr>year = 2020, month = 2, day = 15\<rparr>\<rparr>
     \<le> outstanding \<lparr>interests = 0, repayments = 0, outstanding = 100000, date = None\<rparr>"
proof -
  let ?m = "mortgage_init (6 / 100) 25 700 0 (Num 0)"
  let ?st = "\<lparr>interests = 0, repayments = 0, outstanding = 100000, date = None\<rparr>"
  let ?st' = "\<lparr>interests = 500, repayments = 700, outstanding = 99800,
               date = Some \<lparr>year = 2020, month = 2, day = 15\<rparr>\<rparr>"
  have h1: "0 \<le> outstanding ?st" by simp
  have h2: "0 \<le> m_rate ?m" "0 \<le> m_repayment ?m" "0 \<le> m_overpay ?m"
    by (simp_all add: mortgage_init_def)
  have h3: "repay_loop ?m [\<lparr>year = 2020, month = 2, day = 15\<rparr>] ?st = Inr ?st'"
    by code_simp
  have h4: "calculate_interest ?m 100000 \<le> m_repayment ?m"
    by (simp add: calculate_interest_def mortgage_init_def)
  from period_balance_bounds [OF h1 h2 h3] h4
  have "outstanding ?st' \<le> outstanding ?st" by simp
  with h1 h2 h3 h4 show ?thesis by simp
qed

text \<open>
  C3 as stated fails when the interest of the period is larger than the repayment: on a
  balance of 100000 at 6 percent a year the interest is 500, and with a monthly
  repayment of 100 the balance after the period is 100400.
\<close>

theorem period_balance_can_grow:
  "0 \<le> outstanding \<lparr>interests = 0, repayments = 0, outstanding = 100000, date = None\<rparr> \<and>
   0 \<le> m_rate (mortgage_init (6 / 100) 25 100 0 (Num 0)) \<and>
   repay_loop (mortgage_init (6 / 100) 25 100 0 (Num 0)) [\<lparr>year = 2020, month = 2, day = 15\<rparr>]
     \<lparr>interests = 0, repayments = 0, outstanding = 100000, date = None\<rparr>
     = Inr \<lparr>interests = 500, repayments = 100, outstanding = 100400,
            date = Some \<lparr>year = 2020, month = 2, day = 15\<rparr>\<rparr> \<and>
   \<not> outstanding \<lparr>interests = 500, repayments = 100, outstanding = 100400,
                  date = Some \<lparr>year = 2020, month = 2, day = 15\<rparr>\<rparr>
       \<le> outstanding \<lparr>interests = 0, repayments = 0, outstanding = 100000, date = None\<rparr>"
proof -
  have "repay_loop (mortgage_init (6 / 100) 25 100 0 (Num 0)) [\<lparr>year = 2020, month = 2, day = 15\<rparr>]
     \<lparr>interests = 0, repayments = 0, outstanding = 100000, date = None\<rparr>
     = Inr \<lparr>interests = 500, repayments = 100, outstanding = 100400,
            date = Some \<lparr>year = 2020, month = 2, day = 15\<rparr>\<rparr>"
    by code_simp
  then show ?thesis by (simp add: mortgage_init_def)
qed

section \<open>Construction of a mortgage\<close>

text \<open>
  C7, amended. The constructor of \<open>mortgage\<close> checks nothing: whatever the rate, the term
  and the repayment are, the object is built with the parameters as given and with
  \<open>start\<close> and \<open>amount\<close> unbound. A term of zero or less is found out only when the
  simulation is run: every call of \<open>repay\<close> on such an object then raises.
\<close>

theorem mortgage_init_checks_nothing:
  "m_rate (mortgage_init rate duration repayment overpay downpayment) = rate \<and>
   m_duration (mortgage_init rate duration repayment overpay downpayment) = duration \<and>
   m_repayment (mortgage_init rate duration repayment overpay downpayment) = repayment \<and>
   m_overpay (mortgage_init rate duration repayment overpay downpayment) = overpay \<and>
   m_downpayment (mortgage_init rate duration repayment overpay downpayment) = downpayment \<and>
   m_start (mortgage_init rate duration repayment overpay downpayment) = None \<and>
   m_amount (mortgage_init rate duration repayment overpay downpayment) = None \<and>
   (valid_datetime start \<longrightarrow> duration \<le> 0 \<longrightarrow>
      (\<exists>e. repay (mortgage_init rate duration repayment overpay downpayment) out start = Inl e))"
proof -
  have "valid_datetime start \<Longrightarrow> duration \<le> 0 \<Longrightarrow>
      \<exists>e. repay (mortgage_init rate duration repayment overpay downpayment) out start = Inl e"
    by (rule repay_fails_without_term) (simp_all add: mortgage_init_def)
  then show ?thesis by (simp add: mortgage_init_def)
qed

theorem mortgage_init_checks_nothing_witness:
  "valid_datetime \<lparr>year = 2020, month = 1, day = 15\<rparr> \<and> (- 3 :: int) \<le> 0 \<and>
   m_duration (mortgage_init (6 / 100) (- 3) 700 0 (Num 0)) = - 3 \<and>
   (\<exists>e. repay (mortgage_init (6 / 100) (- 3) 700 0 (Num 0)) 100000
           \<lparr>year = 2020, month = 1, day = 15\<rparr> = Inl e)"
proof -
  have v: "valid_datetime \<lparr>year = 2020, month = 1, day = 15\<rparr>" by code_simp
  from mortgage_init_checks_nothing
         [of "6 / 100" "- 3" 700 0 "Num 0" "\<lparr>year = 2020, month = 1, day = 15\<rparr>" 100000] v
  show ?thesis by simp
qed

text \<open>
  C7 as stated fails: a mortgage with a term of zero years, a negative repayment and a
  rate of 5000 percent is constructed like any other, and the defect shows only when
  \<open>repay\<close> runs, after the downpayment has been applied, as an \<open>UnboundLocalError\<close>.
\<close>

theorem malformed_mortgage_is_constructed:
  "m_duration (mortgage_init 50 0 (- 700) 0 (Num 0)) = 0 \<and>
   m_repayment (mortgage_init 50 0 (- 700) 0 (Num 0)) = - 700 \<and>
   m_rate (mortgage_init 50 0 (- 700) 0 (Num 0)) = 50 \<and>
   repay (mortgage_init 50 0 (- 700) 0 (Num 0)) 100000 \<lparr>year = 2020, month = 1, day = 15\<rparr>
     = Inl UnboundLocalError"
proof -
  have "repay (mortgage_init 50 0 (- 700) 0 (Num 0)) 100000 \<lparr>year = 2020, month = 1, day = 15\<rparr>
     = Inl UnboundLocalError"
    by code_simp
  then show ?thesis by (simp add: mortgage_init_def)
qed

section \<open>Percentages\<close>

text \<open>
  C6. \<open>sanitize_percent\<close> subscripts its argument whatever its type is, so every number
  raises \<open>TypeError\<close>; the documented behaviour, a number returned unchanged, is never
  reached. The rate 0.1 is such an input.
\<close>

theorem sanitize_percent_number_raises:
  "sanitize_percent (Num x) = Inl TypeError \<and>
   sanitize_percent (Num (1 / 10)) \<noteq> Inr (Num (1 / 10))"
  by (simp add: sanitize_percent_def)

section \<open>The downpayment\<close>







section \<open>Paying a mortgage off within its term\<close>

lemma bound_fields [simp]:
  "calculate_interest (m\<lparr>m_start := a, m_amount := b\<rparr>) x = calculate_interest m x"
  by (simp add: calculate_interest_def)

lemma calculate_repayment_no_overpay:
  "m_overpay m = 0 \<Longrightarrow>
   calculate_repayment m d b = Inr (if b > m_repayment m then m_repayment m else b)"
  by (simp add: calculate_repayment_def)

text \<open>
  Without overpayment a period takes at most the monthly repayment off the balance, and
  never more than is owed.
\<close>

lemma repay_loop_lower_bound:
  assumes "0 \<le> m_rate m" and "m_overpay m = 0" and "0 \<le> m_repayment m"
  shows "repay_loop m ds st = Inr st' \<Longrightarrow> 0 \<le> outstanding st \<Longrightarrow>
         outstanding st - real (length ds) * m_repayment m \<le> outstanding st'"
proof (induction ds arbitrary: st)
  case Nil
  then show ?case by simp
next
  case (Cons d ds)
  let ?i = "calculate_interest m (outstanding st)"
  have i0: "0 \<le> ?i" using interest_sign(2) [OF assms(1) Cons.prems(2)] .
  have len: "real (length (d # ds)) * m_repayment m =
             real (length ds) * m_repayment m + m_repayment m"
    by (simp add: algebra_simps)
  have rest: "0 \<le> real (length ds) * m_repayment m" using assms(3) by simp
  from Cons.prems(1) show ?case
  proof (cases rule: repay_loop_ConsE)
    case leave
    from rest assms(3) i0
    have "outstanding st - (real (length ds) * m_repayment m + m_repayment m)
            \<le> outstanding st + ?i"
      by linarith
    with leave(2) show ?thesis unfolding len by simp
  next
    case (pay r)
    from pay(2) have r: "r = (if outstanding st + ?i > m_repayment m
                              then m_repayment m else outstanding st + ?i)"
      by (simp add: calculate_repayment_no_overpay [OF assms(2)])
    have nonneg: "0 \<le> outstanding st + ?i - r" using r pay(1) by simp
    have step: "outstanding st - m_repayment m \<le> outstanding st + ?i - r"
      using r i0 by simp
    from Cons.IH [OF pay(3)] nonneg
    have "outstanding st + ?i - r - real (length ds) * m_repayment m \<le> outstanding st'"
      by simp
    with step show ?thesis unfolding len by linarith
  qed
qed







section \<open>The balance of the loan against the amount borrowed\<close>

lemma payoff_stepE:
  assumes "payoff_step l m ms start = Inr (l', current)"
  obtains self dp st c where
    "repay_locals m (l_outstanding l) start = Inr (self, dp, st)"
    "date st = Some current" "l_cost l = Some c"
    "l' = l\<lparr>l_mortgages := ms, l_outstanding := outstanding st,
              l_cost := Some (c + interests st), l_end := Some current\<rparr>"
proof -
  from assms obtain self i r c where
    rep: "repay m (l_outstanding l) start = Inr (self, i, r, current)" and
    cost: "l_cost l = Some c"
    by (auto simp: payoff_step_def split: sum.splits option.splits)
  from rep obtain dp st where
    loc: "repay_locals m (l_outstanding l) start = Inr (self, dp, st)" and
    dt: "date st = Some current"
    by (rule repayE)
  from payoff_step_result [OF loc dt cost, of ms] assms
  have "l' = l\<lparr>l_mortgages := ms, l_outstanding := outstanding st,
              l_cost := Some (c + interests st), l_end := Some current\<rparr>"
    by simp
  with loc dt cost that show thesis by blast
qed

text \<open>
  One pass of the \<open>payoff\<close> loop keeps the balance below a bound, when the mortgage
  takes a downpayment that is not negative and its monthly repayment covers the
  interest on the bound.
\<close>

lemma payoff_step_bound:
  assumes step: "payoff_step l m ms start = Inr (l', current)"
    and rate: "0 \<le> m_rate m" and over: "0 \<le> m_overpay m"
    and cover: "calculate_interest m P \<le> m_repayment m"
    and down: "\<And>dp. calculate_downpayment m (l_outstanding l) = Inr dp \<Longrightarrow> 0 \<le> dp"
    and bound: "l_outstanding l \<le> P"
  shows "l_outstanding l' \<le> P" and "l_amount l' = l_amount l" and "l_mortgages l' = ms"
proof -
  from step obtain self dp st c where
    loc: "repay_locals m (l_outstanding l) start = Inr (self, dp, st)" and
    l': "l' = l\<lparr>l_mortgages := ms, l_outstanding := outstanding st,
              l_cost := Some (c + interests st), l_end := Some current\<rparr>"
    by (rule payoff_stepE)
  from loc obtain ds where
    self: "self = m\<lparr>m_start := Some start, m_amount := Some (l_outstanding l)\<rparr>" and
    dp: "calculate_downpayment m (l_outstanding l) = Inr dp" and
    loop: "repay_loop self ds
             \<lparr>interests = 0, repayments = 0, outstanding = l_outstanding l - dp, date = None\<rparr>
           = Inr st"
    by (rule repay_localsE)
  from down [OF dp] bound have start: "l_outstanding l - dp \<le> P" by simp
  have "outstanding st \<le> P"
  proof (rule repay_loop_le_bound [OF _ _ _ loop])
    show "0 \<le> m_rate self" "0 \<le> m_overpay self" using rate over self by simp_all
    show "calculate_interest self P \<le> m_repayment self" using cover self by simp
    show "outstanding \<lparr>interests = 0, repayments = 0,
            outstanding = l_outstanding l - dp, date = None\<rparr> \<le> P"
      using start by simp
  qed
  with l' show "l_outstanding l' \<le> P" and "l_amount l' = l_amount l" and "l_mortgages l' = ms"
    by simp_all
qed

lemma payoff_states_Nil: "l_mortgages l = [] \<Longrightarrow> payoff_states l start = []"
  by (subst payoff_states.simps) simp

lemma payoff_loop_Nil: "l_mortgages l = [] \<Longrightarrow> payoff_loop l start = Inr l"
  by (subst payoff_loop.simps) simp

lemma payoff_states_fail:
  "l_mortgages l = m # ms \<Longrightarrow> payoff_step l m ms start = Inl e \<Longrightarrow> payoff_states l start = []"
  by (subst payoff_states.simps) simp

lemma payoff_loop_fail:
  "l_mortgages l = m # ms \<Longrightarrow> payoff_step l m ms start = Inl e \<Longrightarrow> payoff_loop l start = Inl e"
  by (subst payoff_loop.simps) simp

lemma payoff_states_done:
  "l_mortgages l = m # ms \<Longrightarrow> payoff_step l m ms start = Inr (l', current) \<Longrightarrow>
   \<not> 0 < l_outstanding l' \<Longrightarrow> payoff_states l start = [l']"
  by (subst payoff_states.simps) simp

lemma payoff_loop_done:
  "l_mortgages l = m # ms \<Longrightarrow> payoff_step l m ms start = Inr (l', current) \<Longrightarrow>
   \<not> 0 < l_outstanding l' \<Longrightarrow> payoff_loop l start = Inr l'"
  by (subst payoff_loop.simps) simp

lemma payoff_states_next:
  "l_mortgages l = m # ms \<Longrightarrow> payoff_step l m ms start = Inr (l', current) \<Longrightarrow>
   0 < l_outstanding l' \<Longrightarrow> payoff_states l start = l' # payoff_states l' current"
  by (subst payoff_states.simps) simp

lemma payoff_loop_next:
  "l_mortgages l = m # ms \<Longrightarrow> payoff_step l m ms start = Inr (l', current) \<Longrightarrow>
   0 < l_outstanding l' \<Longrightarrow> payoff_loop l start = payoff_loop l' current"
  by (subst payoff_loop.simps) simp

lemma payoff_bound:
  "0 \<le> l_outstanding l \<Longrightarrow> l_outstanding l \<le> P \<Longrightarrow>
   (\<forall>m \<in> set (l_mortgages l).
           0 \<le> m_rate m \<and> 0 \<le> m_overpay m \<and>
           calculate_interest m P \<le> m_repayment m \<and>
           (\<forall>out dp. 0 \<le> out \<longrightarrow> calculate_downpayment m out = Inr dp \<longrightarrow> 0 \<le> dp)) \<Longrightarrow>
   (\<forall>s \<in> set (payoff_states l start). l_outstanding s \<le> P) \<and>
   (\<forall>l'. payoff_loop l start = Inr l' \<longrightarrow> l_outstanding l' \<le> P)"
proof (induct l start rule: payoff_states.induct)
  case (1 l start)
  show ?case
  proof (cases "l_mortgages l")
    case Nil
    with "1.prems"(2) show ?thesis
      by (simp add: payoff_states_Nil payoff_loop_Nil)
  next
    case (Cons m ms)
    show ?thesis
    proof (cases "payoff_step l m ms start")
      case (Inl e)
      with Cons show ?thesis
        by (simp add: payoff_states_fail payoff_loop_fail)
    next
      case (Inr res)
      obtain l' current where res: "res = (l', current)" by (cases res) auto
      from Cons have mem: "m \<in> set (l_mortgages l)" by simp
      with "1.prems"(3) have m:
        "0 \<le> m_rate m" "0 \<le> m_overpay m"
        "calculate_interest m P \<le> m_repayment m"
        and down: "\<forall>out dp. 0 \<le> out \<longrightarrow> calculate_downpayment m out = Inr dp \<longrightarrow> 0 \<le> dp"
        by blast+
      from down "1.prems"(1)
      have dp: "\<And>dp. calculate_downpayment m (l_outstanding l) = Inr dp \<Longrightarrow> 0 \<le> dp"
        by blast
      from Inr res have step: "payoff_step l m ms start = Inr (l', current)" by simp
      from payoff_step_bound [OF step m dp "1.prems"(2)]
      have l': "l_outstanding l' \<le> P" "l_mortgages l' = ms"
        by simp_all
      show ?thesis
      proof (cases "0 < l_outstanding l'")
        case False
        from payoff_states_done [OF Cons step False] payoff_loop_done [OF Cons step False] l'(1)
        show ?thesis by simp
      next
        case True
        from Cons l'(2) have "set (l_mortgages l') \<subseteq> set (l_mortgages l)" by auto
        with "1.prems"(3)
        have rest: "\<forall>m \<in> set (l_mortgages l').
           0 \<le> m_rate m \<and> 0 \<le> m_overpay m \<and>
           calculate_interest m P \<le> m_repayment m \<and>
           (\<forall>out dp. 0 \<le> out \<longrightarrow> calculate_downpayment m out = Inr dp \<longrightarrow> 0 \<le> dp)"
          by blast
        from True have nn: "0 \<le> l_outstanding l'" and go: "\<not> \<not> 0 < l_outstanding l'"
          by simp_all
        from "1.hyps" [OF Cons Inr res [symmetric] go nn l'(1) rest]
        have ih: "(\<forall>s \<in> set (payoff_states l' current). l_outstanding s \<le> P) \<and>
              (\<forall>l''. payoff_loop l' current = Inr l'' \<longrightarrow> l_outstanding l'' \<le> P)" .
        from payoff_states_next [OF Cons step True] payoff_loop_next [OF Cons step True] l'(1) ih
        show ?thesis by simp
      qed
    qed
  qed
qed

text \<open>
  C5, amended. Take a loan whose balance is between zero and the amount borrowed, and
  mortgages that each have a rate and an overpayment that are not negative, a monthly
  repayment that covers the interest on the amount borrowed, and a downpayment that
  never resolves to a negative amount on a balance that is not negative (no capital
  release). Then after each mortgage that \<open>payoff\<close> processes, and in the state the loop
  ends in, the balance does not exceed the amount borrowed.
\<close>

theorem outstanding_never_exceeds_principal:
  assumes "0 \<le> l_outstanding l" and "l_outstanding l \<le> l_amount l"
    and "\<forall>m \<in> set (l_mortgages l).
           0 \<le> m_rate m \<and> 0 \<le> m_overpay m \<and>
           calculate_interest m (l_amount l) \<le> m_repayment m \<and>
           (\<forall>out dp. 0 \<le> out \<longrightarrow> calculate_downpayment m out = Inr dp \<longrightarrow> 0 \<le> dp)"
  shows "(\<forall>s \<in> set (payoff_states l start). l_outstanding s \<le> l_amount l) \<and>
         (\<forall>l'. payoff_loop l start = Inr l' \<longrightarrow> l_outstanding l' \<le> l_amount l)"
  using assms by (rule payoff_bound)

theorem outstanding_never_exceeds_principal_witness:
  "0 \<le> l_outstanding (loan_init 1100 \<lparr>year = 2020, month = 1, day = 15\<rparr>
          [mortgage_init (12 / 100) 1 600 0 (Num 100),
           mortgage_init (6 / 100) 25 700 (1 / 10) (Num 0)]\<lparr>l_cost := Some 0\<rparr>) \<and>
   l_outstanding (loan_init 1100 \<lparr>year = 2020, month = 1, day = 15\<rparr>
          [mortgage_init (12 / 100) 1 600 0 (Num 100),
           mortgage_init (6 / 100) 25 700 (1 / 10) (Num 0)]\<lparr>l_cost := Some 0\<rparr>)
     \<le> l_amount (loan_init 1100 \<lparr>year = 2020, month = 1, day = 15\<rparr>
          [mortgage_init (12 / 100) 1 600 0 (Num 100),
           mortgage_init (6 / 100) 25 700 (1 / 10) (Num 0)]\<lparr>l_cost := Some 0\<rparr>) \<and>
   map l_outstanding (payoff_states (loan_init 1100 \<lparr>year = 2020, month = 1, day = 15\<rparr>
          [mortgage_init (12 / 100) 1 600 0 (Num 100),
           mortgage_init (6 / 100) 25 700 (1 / 10) (Num 0)]\<lparr>l_cost := Some 0\<rparr>)
        \<lparr>year = 2020, month = 1, day = 15\<rparr>) = [0] \<and>
   list_all (\<lambda>s. l_outstanding s \<le> 1100)
     (payoff_states (loan_init 1100 \<lparr>year = 2020, month = 1, day = 15\<rparr>
          [mortgage_init (12 / 100) 1 600 0 (Num 100),
           mortgage_init (6 / 100) 25 700 (1 / 10) (Num 0)]\<lparr>l_cost := Some 0\<rparr>)
        \<lparr>year = 2020, month = 1, day = 15\<rparr>)"
proof -
  let ?s = "\<lparr>year = 2020, month = 1, day = 15\<rparr>"
  let ?l = "loan_init 1100 ?s
          [mortgage_init (12 / 100) 1 600 0 (Num 100),
           mortgage_init (6 / 100) 25 700 (1 / 10) (Num 0)]\<lparr>l_cost := Some 0\<rparr>"
  have h1: "0 \<le> l_outstanding ?l" "l_outstanding ?l \<le> l_amount ?l"
    by (simp_all add: loan_init_def)
  have h2: "\<forall>m \<in> set (l_mortgages ?l).
           0 \<le> m_rate m \<and> 0 \<le> m_overpay m \<and>
           calculate_interest m (l_amount ?l) \<le> m_repayment m \<and>
           (\<forall>out dp. 0 \<le> out \<longrightarrow> calculate_downpayment m out = Inr dp \<longrightarrow> 0 \<le> dp)"
    by (auto simp: loan_init_def mortgage_init_def calculate_interest_def
          calculate_downpayment_def sign_magnitude_def)
  have h3: "map l_outstanding (payoff_states ?l ?s) = [0]" by code_simp
  from outstanding_never_exceeds_principal [OF h1 h2, of ?s]
  have "list_all (\<lambda>s. l_outstanding s \<le> 1100) (payoff_states ?l ?s)"
    by (simp add: loan_init_def list_all_iff)
  with h1 h3 show ?thesis by (intro conjI)
qed

text \<open>
  C5 as stated fails for a capital release: a loan of 100000 whose only mortgage
  releases 20000 (a downpayment of -20000) starts its schedule from 120000; twelve
  payments of at most 700 leave more than 111600, so after the mortgage has been
  processed the balance of the loan is above the amount borrowed.
\<close>

theorem capital_release_exceeds_principal:
  "l_amount (loan_init 100000 \<lparr>year = 2020, month = 1, day = 15\<rparr>
              [mortgage_init (6 / 100) 1 700 0 (Num (- 20000))]) = 100000 \<and>
   \<not> isl (payoff (loan_init 100000 \<lparr>year = 2020, month = 1, day = 15\<rparr>
                     [mortgage_init (6 / 100) 1 700 0 (Num (- 20000))])) \<and>
   \<not> l_outstanding (projr (payoff (loan_init 100000 \<lparr>year = 2020, month = 1, day = 15\<rparr>
                     [mortgage_init (6 / 100) 1 700 0 (Num (- 20000))]))) \<le> 100000"
proof -
  let ?s = "\<lparr>year = 2020, month = 1, day = 15\<rparr>"
  let ?m = "mortgage_init (6 / 100) 1 700 0 (Num (- 20000))"
  let ?self = "?m\<lparr>m_start := Some ?s, m_amount := Some 100000\<rparr>"
  let ?l = "loan_init 100000 ?s [?m]"
  let ?lc = "?l\<lparr>l_cost := Some 0\<rparr>"
  let ?ds = "[\<lparr>year = 2020, month = 2, day = 15\<rparr>,
      \<lparr>year = 2020, month = 3, day = 15\<rparr>,
      \<lparr>year = 2020, month = 4, day = 15\<rparr>,
      \<lparr>year = 2020, month = 5, day = 15\<rparr>,
      \<lparr>year = 2020, month = 6, day = 15\<rparr>,
      \<lparr>year = 2020, month = 7, day = 15\<rparr>,
      \<lparr>year = 2020, month = 8, day = 15\<rparr>,
      \<lparr>year = 2020, month = 9, day = 15\<rparr>,
      \<lparr>year = 2020, month = 10, day = 15\<rparr>,
      \<lparr>year = 2020, month = 11, day = 15\<rparr>,
      \<lparr>year = 2020, month = 12, day = 15\<rparr>,
      \<lparr>year = 2021, month = 1, day = 15\<rparr>]"
  let ?init = "\<lparr>interests = 0, repayments = 0, outstanding = 100000 - (- 20000), date = None\<rparr>"
  have sched: "repayment_duration ?self = Inr ?ds" by code_simp
  have dp: "calculate_downpayment ?m 100000 = Inr (- 20000)" by code_simp
  have pay1: "relativedelta_add ?s 0 1 = Inr \<lparr>year = 2020, month = 2, day = 15\<rparr>" by code_simp
  have f: "0 \<le> m_rate ?self" "m_overpay ?self = 0" "0 \<le> m_repayment ?self"
    by (simp_all add: mortgage_init_def)
  from f(2) have "m_overpay ?self \<noteq> 0 \<Longrightarrow>
      \<exists>s first. m_start ?self = Some s \<and> relativedelta_add s 1 0 = Inr first"
    by simp
  then have "\<exists>st. repay_loop ?self ?ds ?init = Inr st" by (rule repay_loop_total)
  then obtain st where loop: "repay_loop ?self ?ds ?init = Inr st" by blast
  have "outstanding ?init - real (length ?ds) * m_repayment ?self \<le> outstanding st"
    by (rule repay_loop_lower_bound [OF f loop]) simp
  then have big: "111600 \<le> outstanding st" by (simp add: mortgage_init_def)
  then have pos: "0 < outstanding st" by simp
  have "date st = Some (last ?ds)"
    by (rule repay_loop_date(3) [OF loop _ pos]) simp
  then have dt: "date st = Some \<lparr>year = 2021, month = 1, day = 15\<rparr>" by simp
  have out0: "l_outstanding ?lc = 100000" by (simp add: loan_init_def)
  have "repay_locals ?m 100000 ?s = Inr (?self, - 20000, st)"
    using dp sched loop by (simp add: repay_locals_def Let_def)
  with out0 have loc: "repay_locals ?m (l_outstanding ?lc) ?s = Inr (?self, - 20000, st)"
    by simp
  have cost: "l_cost ?lc = Some 0" by simp
  let ?l' = "?lc\<lparr>l_mortgages := [], l_outstanding := outstanding st,
                  l_cost := Some (0 + interests st),
                  l_end := Some \<lparr>year = 2021, month = 1, day = 15\<rparr>\<rparr>"
  from payoff_step_result [OF loc dt cost, of "[]"]
  have step: "payoff_step ?lc ?m [] ?s = Inr (?l', \<lparr>year = 2021, month = 1, day = 15\<rparr>)"
    by simp
  have ms: "l_mortgages ?lc = [?m]" by (simp add: loan_init_def)
  have pos': "0 < l_outstanding ?l'" using pos by simp
  have "payoff_loop ?lc ?s = payoff_loop ?l' \<lparr>year = 2021, month = 1, day = 15\<rparr>"
    by (rule payoff_loop_next [OF ms step pos'])
  also have "\<dots> = Inr ?l'" by (rule payoff_loop_Nil) simp
  finally have "payoff_loop ?lc ?s = Inr ?l'" .
  moreover have "payoff ?l = payoff_loop ?lc ?s"
    using pay1 by (simp add: payoff_def Let_def loan_init_def)
  ultimately have "payoff ?l = Inr ?l'" by simp
  with big show ?thesis by (simp add: loan_init_def)
qed

section \<open>Overpayment\<close>








end
